theory Spec2Isabelle
  imports Complex_Main
begin

section \<open>Python values and errors\<close>

text \<open>
  Python floats are modelled as \<^typ>\<open>real\<close>, Python ints as \<^typ>\<open>int\<close>. Rounding
  error, overflow to infinity and NaN of IEEE doubles are outside this model. An uncaught
  exception is the \<open>Inl\<close> branch of a sum type.
\<close>

datatype py_error = ZeroDivisionError | TypeError | ValueError | IndexError | OverflowError

text \<open>Sequencing of two fallible computations: the first exception raised wins.\<close>

definition and_then :: "py_error + 'a \<Rightarrow> ('a \<Rightarrow> py_error + 'b) \<Rightarrow> py_error + 'b" where
  "and_then m f = (case m of Inl e \<Rightarrow> Inl e | Inr v \<Rightarrow> f v)"

text \<open>Python's \<open>a / b\<close> on floats: raises \<open>ZeroDivisionError\<close> when \<open>b == 0\<close>.\<close>

definition truediv :: "real \<Rightarrow> real \<Rightarrow> py_error + real" where
  "truediv a b = (if b = 0 then Inl ZeroDivisionError else Inr (a / b))"


text \<open>
  The objects a caller can pass where a number is expected: an int, a float, or \<open>None\<close>.
  (A \<open>str\<close>, which \<open>float\<close> parses, and objects of other types are not modelled.)
\<close>

datatype py_value = PyInt int | PyFloat real | PyNone

text \<open>
  The built-in \<open>float(v)\<close>: the identity on a float, \<open>TypeError\<close> on \<open>None\<close>, and on an
  int the number itself (its rounding to the nearest double is not modelled), or
  \<open>OverflowError\<close> when the int rounds to \<open>2 ** 1024\<close>, that is from
  \<open>2 ** 1024 - 2 ** 970\<close> on in absolute value.
\<close>

definition py_float :: "py_value \<Rightarrow> py_error + real" where
  "py_float v =
     (case v of
        PyFloat r \<Rightarrow> Inr r
      | PyInt i \<Rightarrow> (if \<bar>i\<bar> \<ge> 2 ^ 1024 - 2 ^ 970 then Inl OverflowError else Inr (of_int i))
      | PyNone \<Rightarrow> Inl TypeError)"


section \<open>counter.py: the push-up repetition counter\<close>

text \<open>\<open>self.state\<close> holds one of the two strings \<open>"up"\<close> and \<open>"down"\<close>.\<close>

datatype phase = Up | Down

record PushupCounter =
  state :: phase
  reps :: int
  down_frames :: int
  up_frames :: int
  down_angle :: real
  angle_tolerance :: real
  up_th :: real
  parallel_th :: real
  min_down_frames :: int
  min_up_frames :: int

text \<open>
  \<open>PushupCounter.__init__\<close>: stores its arguments and starts in phase \<open>up\<close> with all
  counters at 0. The six arguments are assigned as they are: no statement of the constructor
  converts, inspects or rejects one, so the only result is \<open>Inr\<close>.
\<close>

definition PushupCounter_init ::
  "real \<Rightarrow> real \<Rightarrow> real \<Rightarrow> real \<Rightarrow> int \<Rightarrow> int \<Rightarrow> py_error + PushupCounter" where
  "PushupCounter_init down_angle' angle_tolerance' up_th' parallel_th'
                      min_down_frames' min_up_frames' =
     Inr \<lparr> state = Up, reps = 0, down_frames = 0, up_frames = 0,
           down_angle = down_angle', angle_tolerance = angle_tolerance',
           up_th = up_th', parallel_th = parallel_th',
           min_down_frames = min_down_frames', min_up_frames = min_up_frames' \<rparr>"

text \<open>The counter built by \<open>PushupCounter()\<close> with the default arguments of the source.\<close>

definition default_counter :: PushupCounter where
  "default_counter =
     \<lparr> state = Up, reps = 0, down_frames = 0, up_frames = 0,
       down_angle = 90, angle_tolerance = 15, up_th = 140, parallel_th = 20,
       min_down_frames = 3, min_up_frames = 3 \<rparr>"

text \<open>
  The local \<open>in_down_position\<close> of \<open>update\<close>: the elbow angle is within the tolerance of
  the target and, when an arm/back difference is supplied (strict mode), that difference
  is at most \<open>parallel_th\<close>.
\<close>

definition in_down_position :: "PushupCounter \<Rightarrow> real \<Rightarrow> real option \<Rightarrow> bool" where
  "in_down_position self elbow_angle arm_back_angle_diff =
     (let in_down_angle_range = (\<bar>elbow_angle - down_angle self\<bar> \<le> angle_tolerance self)
      in case arm_back_angle_diff of
           Some d \<Rightarrow> in_down_angle_range \<and> d \<le> parallel_th self
         | None \<Rightarrow> in_down_angle_range)"

text \<open>\<open>PushupCounter.update\<close>: returns \<open>rep_completed\<close> and the mutated object.\<close>

definition PushupCounter_update ::
  "PushupCounter \<Rightarrow> real \<Rightarrow> real option \<Rightarrow> bool \<times> PushupCounter" where
  "PushupCounter_update self elbow_angle arm_back_angle_diff =
     (if in_down_position self elbow_angle arm_back_angle_diff then
        (let s1 = self\<lparr> down_frames := down_frames self + 1, up_frames := 0 \<rparr>
         in if state s1 = Up \<and> down_frames s1 \<ge> min_down_frames s1
            then (False, s1\<lparr> state := Down \<rparr>)
            else (False, s1))
      else if elbow_angle > up_th self then
        (let s1 = self\<lparr> up_frames := up_frames self + 1, down_frames := 0 \<rparr>
         in if state s1 = Down \<and> up_frames s1 \<ge> min_up_frames s1
            then (True, s1\<lparr> state := Up, reps := reps s1 + 1 \<rparr>)
            else (False, s1))
      else
        (False, self\<lparr> down_frames := max 0 (down_frames self - 1),
                      up_frames := max 0 (up_frames self - 1) \<rparr>))"

text \<open>\<open>PushupCounter.reset\<close>.\<close>

definition PushupCounter_reset :: "PushupCounter \<Rightarrow> PushupCounter" where
  "PushupCounter_reset self = self\<lparr> state := Up, reps := 0, down_frames := 0, up_frames := 0 \<rparr>"

text \<open>
  A caller feeding a sequence of frames, one \<open>update\<close> per frame (as the frame loop of
  \<open>main.py\<close> does): the signals returned, in order, and the final object.
\<close>

type_synonym frame_input = "real \<times> real option"

fun update_all :: "PushupCounter \<Rightarrow> frame_input list \<Rightarrow> bool list \<times> PushupCounter" where
  "update_all self [] = ([], self)"
| "update_all self (f # fs) =
     (case PushupCounter_update self (fst f) (snd f) of
        (b, self') \<Rightarrow> (case update_all self' fs of (bs, self'') \<Rightarrow> (b # bs, self'')))"

text \<open>
  How \<open>update\<close> classifies a frame, by the order of its branches: down-qualifying (first
  branch), up-qualifying (second branch, reached only when the first test fails), transition
  zone (the \<open>else\<close>).
\<close>

definition down_qualifying :: "PushupCounter \<Rightarrow> frame_input \<Rightarrow> bool" where
  "down_qualifying self f = in_down_position self (fst f) (snd f)"

definition up_qualifying :: "PushupCounter \<Rightarrow> frame_input \<Rightarrow> bool" where
  "up_qualifying self f = (\<not> in_down_position self (fst f) (snd f) \<and> fst f > up_th self)"

definition transition_zone :: "PushupCounter \<Rightarrow> frame_input \<Rightarrow> bool" where
  "transition_zone self f = (\<not> in_down_position self (fst f) (snd f) \<and> \<not> fst f > up_th self)"

text \<open>
  The states a counter can be in: freshly constructed (with any arguments), or obtained
  from such a state by a call of \<open>update\<close> or of \<open>reset\<close>.
\<close>

inductive reachable :: "PushupCounter \<Rightarrow> bool" where
  constructed: "PushupCounter_init da tol up par mdf muf = Inr c \<Longrightarrow> reachable c"
| updated: "reachable s \<Longrightarrow> reachable (snd (PushupCounter_update s e d))"
| was_reset: "reachable s \<Longrightarrow> reachable (PushupCounter_reset s)"


section \<open>filters.py: the One Euro filter\<close>

record OneEuroFilter =
  freq :: real
  min_cutoff :: real
  beta :: real
  d_cutoff :: real
  x_prev :: "real option"
  dx_prev :: "real option"
  t_prev :: "real option"

text \<open>
  \<open>OneEuroFilter.__init__\<close>: converts the four arguments with \<open>float\<close>, in the order
  \<open>freq\<close>, \<open>min_cutoff\<close>, \<open>beta\<close>, \<open>d_cutoff\<close>, and leaves the three state fields at
  \<open>None\<close>. A conversion that raises ends the construction; no converted value is
  compared with anything.
\<close>

definition OneEuroFilter_init ::
  "py_value \<Rightarrow> py_value \<Rightarrow> py_value \<Rightarrow> py_value \<Rightarrow> py_error + OneEuroFilter" where
  "OneEuroFilter_init freq' min_cutoff' beta' d_cutoff' =
     and_then (py_float freq') (\<lambda>f.
     and_then (py_float min_cutoff') (\<lambda>mc.
     and_then (py_float beta') (\<lambda>b.
     and_then (py_float d_cutoff') (\<lambda>dc.
       Inr \<lparr> freq = f, min_cutoff = mc, beta = b, d_cutoff = dc,
             x_prev = None, dx_prev = None, t_prev = None \<rparr>))))"

text \<open>The static method \<open>_alpha\<close>, with its three divisions in the order of the source.\<close>

definition alpha :: "real \<Rightarrow> real \<Rightarrow> py_error + real" where
  "alpha cutoff freq' =
     and_then (truediv 1 (2 * pi * cutoff)) (\<lambda>tau.
     and_then (truediv 1 freq') (\<lambda>te.
     and_then (truediv tau te) (\<lambda>q.
     truediv 1 (1 + q))))"

text \<open>The static method \<open>_exp_smooth\<close>.\<close>

definition exp_smooth :: "real \<Rightarrow> real \<Rightarrow> real \<Rightarrow> real" where
  "exp_smooth a x x_prev' = a * x + (1 - a) * x_prev'"

text \<open>\<open>OneEuroFilter.reset\<close>.\<close>

definition OneEuroFilter_reset :: "OneEuroFilter \<Rightarrow> OneEuroFilter" where
  "OneEuroFilter_reset self = self\<lparr> x_prev := None, dx_prev := None, t_prev := None \<rparr>"

text \<open>
  \<open>OneEuroFilter.__call__\<close>. The argument \<open>clock\<close> is what \<open>time.time()\<close> returns at the
  call; it is read only when \<open>t\<close> is \<open>None\<close>. The result is the returned value and the
  mutated object. Arithmetic on a field that is still \<open>None\<close> is a \<open>TypeError\<close> in Python.
\<close>

definition OneEuroFilter_call ::
  "real \<Rightarrow> OneEuroFilter \<Rightarrow> real \<Rightarrow> real option \<Rightarrow> py_error + (real \<times> OneEuroFilter)" where
  "OneEuroFilter_call clock self x t =
     (let now = (case t of None \<Rightarrow> clock | Some t' \<Rightarrow> t')
      in case t_prev self of
           None \<Rightarrow> Inr (x, self\<lparr> t_prev := Some now, x_prev := Some x, dx_prev := Some 0 \<rparr>)
         | Some tp \<Rightarrow>
             (let dt = max (1 / 1000000) (now - tp)
              in and_then (truediv 1 dt) (\<lambda>freq'.
                 case x_prev self of
                   None \<Rightarrow> Inl TypeError
                 | Some xp \<Rightarrow>
                     (let dx = (x - xp) * freq'
                      in and_then (alpha (d_cutoff self) freq') (\<lambda>a_d.
                         case dx_prev self of
                           None \<Rightarrow> Inl TypeError
                         | Some dxp \<Rightarrow>
                             (let dx_hat = exp_smooth a_d dx dxp;
                                  cutoff = min_cutoff self + beta self * \<bar>dx_hat\<bar>
                              in and_then (alpha cutoff freq') (\<lambda>a.
                                 (let x_hat = exp_smooth a x xp
                                  in Inr (x_hat, self\<lparr> x_prev := Some x_hat,
                                                        dx_prev := Some dx_hat,
                                                        t_prev := Some now \<rparr>)))))))))"


section \<open>geometry.py: angles between joints\<close>

text \<open>
  A point is a pair of coordinates; \<open>np.array(a, dtype=float)\<close> is the identity on it.
  The NumPy operations used by \<open>angle\<close> on two-element arrays: elementwise subtraction,
  \<open>np.dot\<close>, \<open>np.linalg.norm\<close> (the Euclidean norm) and \<open>np.degrees\<close>.
\<close>

type_synonym point = "real \<times> real"

definition np_sub :: "point \<Rightarrow> point \<Rightarrow> point" where
  "np_sub a b = (fst a - fst b, snd a - snd b)"

definition np_dot :: "point \<Rightarrow> point \<Rightarrow> real" where
  "np_dot u v = fst u * fst v + snd u * snd v"

definition np_linalg_norm :: "point \<Rightarrow> real" where
  "np_linalg_norm v = sqrt (fst v * fst v + snd v * snd v)"

definition np_degrees :: "real \<Rightarrow> real" where
  "np_degrees r = r * (180 / pi)"

text \<open>\<open>angle(a, b, c)\<close>: the angle at \<open>b\<close>, in degrees.\<close>

definition angle :: "point \<Rightarrow> point \<Rightarrow> point \<Rightarrow> real" where
  "angle a b c =
     (let ba = np_sub a b;
          bc = np_sub c b;
          nba = np_linalg_norm ba;
          nbc = np_linalg_norm bc
      in if nba < 1 / 1000000000 \<or> nbc < 1 / 1000000000 then 0
         else (let cosv = np_dot ba bc / (nba * nbc);
                   cosv' = max (- 1) (min 1 cosv)
               in np_degrees (arccos cosv')))"

text \<open>\<open>collinearity\<close> is \<open>angle\<close> under another name.\<close>

definition collinearity :: "point \<Rightarrow> point \<Rightarrow> point \<Rightarrow> real" where
  "collinearity a b c = angle a b c"


section \<open>scorer.py: the repetition quality scorer\<close>

subsection \<open>The NumPy and Python library functions used by the scorer\<close>

text \<open>
  These are library functions, not code of the repository; they are written after the
  NumPy implementation and documentation, over the reals. An array is a list.
\<close>

text \<open>\<open>a.min()\<close> and \<open>a.max()\<close>: a reduction of an empty array raises \<open>ValueError\<close>.\<close>

fun np_min :: "real list \<Rightarrow> py_error + real" where
  "np_min [] = Inl ValueError"
| "np_min (x # xs) = Inr (fold min xs x)"

fun np_max :: "real list \<Rightarrow> py_error + real" where
  "np_max [] = Inl ValueError"
| "np_max (x # xs) = Inr (fold max xs x)"

text \<open>\<open>np.argmin\<close>: the index of the first occurrence of the minimum.\<close>

fun argmin_from :: "real list \<Rightarrow> nat \<Rightarrow> real \<Rightarrow> nat \<Rightarrow> nat" where
  "argmin_from [] i best best_i = best_i"
| "argmin_from (x # xs) i best best_i =
     (if x < best then argmin_from xs (Suc i) x i else argmin_from xs (Suc i) best best_i)"

fun np_argmin :: "real list \<Rightarrow> py_error + nat" where
  "np_argmin [] = Inl ValueError"
| "np_argmin (x # xs) = Inr (argmin_from xs 1 x 0)"

text \<open>\<open>a[i]\<close> with an integer index: negative indices count from the end.\<close>

definition np_get :: "real list \<Rightarrow> int \<Rightarrow> py_error + real" where
  "np_get a i =
     (let n = int (length a);
          j = (if i < 0 then i + n else i)
      in if 0 \<le> j \<and> j < n then Inr (a ! nat j) else Inl IndexError)"

text \<open>
  \<open>np.interp(x, xp, fp)\<close> for a scalar \<open>x\<close>, after \<open>arr_interp\<close> and
  \<open>binary_search_with_guess\<close> of NumPy's \<open>compiled_base.c\<close>. NumPy does not check that
  \<open>xp\<close> is increasing. The search first compares the key with the last and then with the
  first entry of \<open>xp\<close>; for tables of at most four entries it then scans linearly from
  index 1. Every table in \<open>scorer.py\<close> has two entries, so the bisection that NumPy uses
  for longer tables is not modelled.
\<close>

function linear_search :: "real \<Rightarrow> real list \<Rightarrow> nat \<Rightarrow> int" where
  "linear_search key arr i =
     (if i < length arr \<and> key \<ge> arr ! i then linear_search key arr (Suc i) else int i - 1)"
  by pat_completeness auto
termination
  by (relation "measure (\<lambda>(key, arr, i). length arr - i)") auto

declare linear_search.simps [simp del]

definition binary_search_with_guess :: "real \<Rightarrow> real list \<Rightarrow> int" where
  "binary_search_with_guess key arr =
     (let len = length arr
      in if key > arr ! (len - 1) then int len
         else if key < arr ! 0 then - 1
         else linear_search key arr 1)"

definition np_interp :: "real \<Rightarrow> real list \<Rightarrow> real list \<Rightarrow> py_error + real" where
  "np_interp x xp fp =
     (let lenxp = length xp
      in if lenxp = 0 then Inl ValueError
         else if length fp \<noteq> lenxp then Inl ValueError
         else (let lval = fp ! 0;
                   rval = fp ! (lenxp - 1)
               in if lenxp = 1 then
                    Inr (if x < xp ! 0 then lval else if x > xp ! 0 then rval else fp ! 0)
                  else (let j = binary_search_with_guess x xp
                        in if j = - 1 then Inr lval
                           else if j = int lenxp then Inr rval
                           else if j = int lenxp - 1 then Inr (fp ! nat j)
                           else if xp ! nat j = x then Inr (fp ! nat j)
                           else (let slope = (fp ! (nat j + 1) - fp ! nat j)
                                               / (xp ! (nat j + 1) - xp ! nat j)
                                 in Inr (slope * (x - xp ! nat j) + fp ! nat j)))))"

text \<open>
  \<open>np.percentile(a, q)\<close> with the default linear method: the value at the virtual index
  \<open>(n - 1) * q / 100\<close> of the sorted array, interpolated between its two neighbours. The
  scorer calls it on a non-empty array only.
\<close>

definition np_percentile :: "real list \<Rightarrow> real \<Rightarrow> real" where
  "np_percentile a q =
     (let srt = sort a;
          n = length a;
          virtual_index = (real n - 1) * (q / 100);
          previous_index = nat \<lfloor>virtual_index\<rfloor>;
          next_index = min (previous_index + 1) (n - 1);
          gamma = virtual_index - real previous_index
      in srt ! previous_index + (srt ! next_index - srt ! previous_index) * gamma)"

text \<open>\<open>np.std\<close>: the population standard deviation. Called on a non-empty array only.\<close>

definition np_mean :: "real list \<Rightarrow> real" where
  "np_mean a = sum_list a / real (length a)"

definition np_std :: "real list \<Rightarrow> real" where
  "np_std a = sqrt (np_mean (map (\<lambda>x. \<bar>x - np_mean a\<bar>\<^sup>2) a))"

definition np_clip :: "real \<Rightarrow> real \<Rightarrow> real \<Rightarrow> real" where
  "np_clip x lo hi = min (max x lo) hi"

text \<open>
  Python's \<open>round(x, ndigits)\<close>: to the nearest multiple of \<open>10 ** -ndigits\<close>, a tie going
  to the even neighbour.
\<close>

definition py_round :: "real \<Rightarrow> nat \<Rightarrow> real" where
  "py_round x ndigits =
     (let y = x * 10 ^ ndigits;
          f = \<lfloor>y\<rfloor>;
          d = y - of_int f
      in (if d < 1 / 2 then of_int f
          else if d > 1 / 2 then of_int f + 1
          else if even f then of_int f else of_int f + 1) / 10 ^ ndigits)"

subsection \<open>RepScorer\<close>

record FrameMetrics =
  elbowL :: real
  elbowR :: real
  shoulder_y :: real
  hip_y :: real
  line_dev :: real

text \<open>
  The dictionary returned by \<open>finalize\<close>: the key \<open>"notes"\<close> is present only in the result
  for an empty buffer. The breakdown keeps the order of the dictionary literal.
\<close>

record score_result =
  score :: real
  breakdown :: "(string \<times> real) list"
  "notes" :: "string list option"

text \<open>The scorer object is its frame buffer.\<close>

definition RepScorer_init :: "FrameMetrics list" where
  "RepScorer_init = []"

definition RepScorer_reset :: "FrameMetrics list \<Rightarrow> FrameMetrics list" where
  "RepScorer_reset frames = []"

definition add_frame :: "FrameMetrics list \<Rightarrow> FrameMetrics \<Rightarrow> FrameMetrics list" where
  "add_frame frames metrics = frames @ [metrics]"

text \<open>Block 1 of \<open>finalize\<close>: the two range-of-motion scores, from the arrays \<open>eL\<close> and \<open>eR\<close>.\<close>

definition rom_bottom_score :: "real list \<Rightarrow> real list \<Rightarrow> py_error + real" where
  "rom_bottom_score eL eR =
     and_then (np_min eL) (\<lambda>l. and_then (np_min eR) (\<lambda>r.
       np_interp (min l r) [110, 70] [0, 100]))"

definition rom_top_score :: "real list \<Rightarrow> real list \<Rightarrow> py_error + real" where
  "rom_top_score eL eR =
     and_then (np_max eL) (\<lambda>l. and_then (np_max eR) (\<lambda>r.
       np_interp (max l r) [120, 160] [0, 100]))"

definition ROM :: "real list \<Rightarrow> real list \<Rightarrow> py_error + real" where
  "ROM eL eR =
     and_then (rom_bottom_score eL eR) (\<lambda>bottom. and_then (rom_top_score eL eR) (\<lambda>top.
       Inr (0.6 * bottom + 0.4 * top)))"

text \<open>Block 2: depth.\<close>

definition depth_score :: "real list \<Rightarrow> real list \<Rightarrow> py_error + real" where
  "depth_score sh_y hip_y' =
     (let depth_series = map2 (\<lambda>s h. s - h) sh_y hip_y'
      in and_then (np_max depth_series) (\<lambda>m. np_interp m [0.00, 0.08] [0, 100]))"

text \<open>Block 3: body line.\<close>

definition bodyline_score :: "real list \<Rightarrow> py_error + real" where
  "bodyline_score line_dev' = np_interp (100 - np_percentile line_dev' 90) [60, 100] [0, 100]"

text \<open>
  Block 4: the score of one phase duration against its target. The divisor is
  \<open>max(1e-6, target)\<close>, never zero.
\<close>

definition tempo_phase :: "real \<Rightarrow> real \<Rightarrow> real" where
  "tempo_phase measured target =
     100 - min (\<bar>measured - target\<bar> / max 0.000001 target) 1.0 * 100"

text \<open>Block 5: stability.\<close>

definition stability_score :: "real list \<Rightarrow> py_error + real" where
  "stability_score hip_y' =
     and_then (np_interp (np_std hip_y') [0.00, 0.03] [0, 100]) (\<lambda>v. Inr (100 - v))"

text \<open>Block 6: symmetry, at the turning point \<open>min_idx\<close> and at the last frame.\<close>

definition symmetry_score :: "real list \<Rightarrow> real list \<Rightarrow> nat \<Rightarrow> py_error + real" where
  "symmetry_score eL eR min_idx =
     and_then (np_get eL (int min_idx)) (\<lambda>l1. and_then (np_get eR (int min_idx)) (\<lambda>r1.
     and_then (np_get eL (- 1)) (\<lambda>l2. and_then (np_get eR (- 1)) (\<lambda>r2.
       (let sym_bottom = \<bar>l1 - r1\<bar>;
            sym_top = \<bar>l2 - r2\<bar>
        in and_then (np_interp ((sym_bottom + sym_top) / 2.0) [0.0, 15.0] [0, 100])
             (\<lambda>v. Inr (100 - v)))))))"

text \<open>
  \<open>RepScorer.finalize\<close>, in the order of the source. The two divisions by \<open>fps\<close> are the
  only statements that can raise on a non-empty buffer (\<open>ZeroDivisionError\<close> for
  \<open>fps == 0\<close>).
\<close>

definition finalize ::
  "FrameMetrics list \<Rightarrow> real \<Rightarrow> real \<Rightarrow> real \<Rightarrow> py_error + score_result" where
  "finalize frames target_down_s target_up_s fps =
     (if frames = [] then
        Inr \<lparr> score = 0.0, breakdown = [], notes = Some [''No frames captured''] \<rparr>
      else
        (let eL = map elbowL frames;
             eR = map elbowR frames;
             hip_y' = map hip_y frames;
             sh_y = map shoulder_y frames;
             line_dev' = map line_dev frames
         in and_then (ROM eL eR) (\<lambda>rom.
            and_then (depth_score sh_y hip_y') (\<lambda>depth.
            and_then (bodyline_score line_dev') (\<lambda>bodyline.
            (let mean_elbow = map2 (\<lambda>l r. (l + r) / 2.0) eL eR
             in and_then (np_argmin mean_elbow) (\<lambda>min_idx.
                and_then (truediv (real (max min_idx 1)) fps) (\<lambda>down_s.
                and_then (truediv (of_int (max (int (length frames) - 1 - int min_idx) 1)) fps)
                  (\<lambda>up_s.
                (let tempo_down = tempo_phase down_s target_down_s;
                     tempo_up = tempo_phase up_s target_up_s;
                     tempo_score = 0.6 * tempo_down + 0.4 * tempo_up
                 in and_then (stability_score hip_y') (\<lambda>stability.
                    and_then (symmetry_score eL eR min_idx) (\<lambda>symmetry.
                    (let b_rom = np_clip rom 0 100;
                         b_depth = np_clip depth 0 100;
                         b_bodyline = np_clip bodyline 0 100;
                         b_tempo = np_clip tempo_score 0 100;
                         b_stability = np_clip stability 0 100;
                         b_symmetry = np_clip symmetry 0 100;
                         final = 0.35 * b_rom + 0.15 * b_depth + 0.20 * b_bodyline
                                 + 0.10 * b_tempo + 0.10 * b_stability + 0.10 * b_symmetry
                     in Inr \<lparr> score = py_round final 1,
                              breakdown =
                                [(''ROM'', b_rom), (''Depth'', b_depth),
                                 (''BodyLine'', b_bodyline), (''Tempo'', b_tempo),
                                 (''Stability'', b_stability), (''Symmetry'', b_symmetry),
                                 (''down_seconds'', py_round down_s 2),
                                 (''up_seconds'', py_round up_s 2)],
                              notes = None \<rparr>)))))))))))))"

text \<open>The six keys of the breakdown that are sub-scores.\<close>

definition sub_scores :: "string list" where
  "sub_scores = [''ROM'', ''Depth'', ''BodyLine'', ''Tempo'', ''Stability'', ''Symmetry'']"


section \<open>Properties of the repetition counter\<close>

lemma default_counter_constructed:
  "PushupCounter_init 90 15 140 20 3 3 = Inr default_counter"
  by (simp add: PushupCounter_init_def default_counter_def)


lemma update_config:
  "down_angle (snd (PushupCounter_update s e d)) = down_angle s"
  "angle_tolerance (snd (PushupCounter_update s e d)) = angle_tolerance s"
  "up_th (snd (PushupCounter_update s e d)) = up_th s"
  "parallel_th (snd (PushupCounter_update s e d)) = parallel_th s"
  "min_down_frames (snd (PushupCounter_update s e d)) = min_down_frames s"
  "min_up_frames (snd (PushupCounter_update s e d)) = min_up_frames s"
  by (simp_all add: PushupCounter_update_def Let_def)

lemma in_down_position_update:
  "in_down_position (snd (PushupCounter_update s e d)) x y = in_down_position s x y"
  by (cases y) (simp_all add: in_down_position_def update_config)

lemma update_all_append:
  "update_all s (xs @ ys) =
     (fst (update_all s xs) @ fst (update_all (snd (update_all s xs)) ys),
      snd (update_all (snd (update_all s xs)) ys))"
  by (induction xs arbitrary: s) (auto split: prod.splits)

lemma update_all_config:
  "in_down_position (snd (update_all s fs)) x y = in_down_position s x y"
  "up_th (snd (update_all s fs)) = up_th s"
  "min_down_frames (snd (update_all s fs)) = min_down_frames s"
  "min_up_frames (snd (update_all s fs)) = min_up_frames s"
proof (induction fs arbitrary: s)
  case Nil
  { case 1 show ?case by simp next
    case 2 show ?case by simp next
    case 3 show ?case by simp next
    case 4 show ?case by simp }
next
  case (Cons f fs)
  { case 1 show ?case using Cons.IH(1)[of "snd (PushupCounter_update s (fst f) (snd f))"]
      by (simp add: in_down_position_update split: prod.splits) (metis in_down_position_update snd_conv)
  next
    case 2 show ?case using Cons.IH(2)[of "snd (PushupCounter_update s (fst f) (snd f))"]
      by (simp split: prod.splits) (metis update_config(3) snd_conv)
  next
    case 3 show ?case using Cons.IH(3)[of "snd (PushupCounter_update s (fst f) (snd f))"]
      by (simp split: prod.splits) (metis update_config(5) snd_conv)
  next
    case 4 show ?case using Cons.IH(4)[of "snd (PushupCounter_update s (fst f) (snd f))"]
      by (simp split: prod.splits) (metis update_config(6) snd_conv)
  }
qed

lemma down_step:
  "down_qualifying c f \<Longrightarrow>
   PushupCounter_update c (fst f) (snd f) =
     (False, c\<lparr> down_frames := down_frames c + 1, up_frames := 0,
                state := (if state c = Up \<and> min_down_frames c \<le> down_frames c + 1
                          then Down else state c) \<rparr>)"
  by (simp add: down_qualifying_def PushupCounter_update_def Let_def)

lemma up_step:
  "up_qualifying c f \<Longrightarrow>
   PushupCounter_update c (fst f) (snd f) =
     (if state c = Down \<and> min_up_frames c \<le> up_frames c + 1
      then (True, c\<lparr> up_frames := up_frames c + 1, down_frames := 0, state := Up,
                     reps := reps c + 1 \<rparr>)
      else (False, c\<lparr> up_frames := up_frames c + 1, down_frames := 0 \<rparr>))"
  by (simp add: up_qualifying_def PushupCounter_update_def Let_def)

lemma transition_step:
  "transition_zone c f \<Longrightarrow>
   PushupCounter_update c (fst f) (snd f) =
     (False, c\<lparr> down_frames := max 0 (down_frames c - 1),
                up_frames := max 0 (up_frames c - 1) \<rparr>)"
  by (simp add: transition_zone_def PushupCounter_update_def Let_def)

lemma qualifying_update_all:
  "down_qualifying (snd (update_all s fs)) f = down_qualifying s f"
  "up_qualifying (snd (update_all s fs)) f = up_qualifying s f"
  "transition_zone (snd (update_all s fs)) f = transition_zone s f"
  by (simp_all add: down_qualifying_def up_qualifying_def transition_zone_def update_all_config)

lemma update_all_snoc:
  "update_all s (xs @ [f]) =
     (fst (update_all s xs) @ [fst (PushupCounter_update (snd (update_all s xs)) (fst f) (snd f))],
      snd (PushupCounter_update (snd (update_all s xs)) (fst f) (snd f)))"
  by (simp add: update_all_append split: prod.splits)

text \<open>Runs of down frames from a state in phase up with no repetition pending.\<close>
lemma down_run:
  assumes "\<forall>f \<in> set ds. down_qualifying c f" and "state c = Up"
  shows "fst (update_all c ds) = replicate (length ds) False
       \<and> down_frames (snd (update_all c ds)) = down_frames c + int (length ds)
       \<and> up_frames (snd (update_all c ds)) = (if ds = [] then up_frames c else 0)
       \<and> reps (snd (update_all c ds)) = reps c
       \<and> state (snd (update_all c ds)) =
           (if ds \<noteq> [] \<and> min_down_frames c \<le> down_frames c + int (length ds) then Down else Up)"
  using assms(1)
proof (induction ds rule: rev_induct)
  case Nil
  then show ?case using assms(2) by simp
next
  case (snoc f fs)
  let ?s = "snd (update_all c fs)"
  have IH: "fst (update_all c fs) = replicate (length fs) False"
    "down_frames ?s = down_frames c + int (length fs)"
    "up_frames ?s = (if fs = [] then up_frames c else 0)"
    "reps ?s = reps c"
    "state ?s = (if fs \<noteq> [] \<and> min_down_frames c \<le> down_frames c + int (length fs) then Down else Up)"
    using snoc by simp_all
  have q: "down_qualifying ?s f" using snoc.prems by (simp add: qualifying_update_all)
  show ?case
    unfolding update_all_snoc down_step[OF q]
    using IH by (auto simp: update_all_config replicate_append_same)
qed

lemma up_run:
  assumes "\<forall>f \<in> set us. up_qualifying c f" and "state c = Down"
      and "up_frames c = 0" and "int (length us) < min_up_frames c"
  shows "fst (update_all c us) = replicate (length us) False
       \<and> up_frames (snd (update_all c us)) = int (length us)
       \<and> reps (snd (update_all c us)) = reps c
       \<and> state (snd (update_all c us)) = Down"
  using assms(1,4)
proof (induction us rule: rev_induct)
  case Nil
  then show ?case using assms(2,3) by simp
next
  case (snoc f fs)
  let ?s = "snd (update_all c fs)"
  have IH: "fst (update_all c fs) = replicate (length fs) False"
    "up_frames ?s = int (length fs)"
    "reps ?s = reps c"
    "state ?s = Down"
    using snoc by simp_all
  have q: "up_qualifying ?s f" using snoc.prems by (simp add: qualifying_update_all)
  show ?case
    unfolding update_all_snoc up_step[OF q]
    using IH snoc.prems(2) by (auto simp: update_all_config replicate_append_same)
qed


lemma reachable_update_all: "reachable s \<Longrightarrow> reachable (snd (update_all s fs))"
proof (induction fs arbitrary: s)
  case Nil
  then show ?case by simp
next
  case (Cons f fs)
  have "reachable (snd (PushupCounter_update s (fst f) (snd f)))"
    using Cons.prems by (rule reachable.updated)
  from Cons.IH[OF this] show ?case
    using update_all_append[of s "[f]" fs] by (simp split: prod.splits)
qed

lemma default_counter_reachable: "reachable default_counter"
  using default_counter_constructed by (rule reachable.constructed)

lemma default_counter_frames:
  "down_qualifying default_counter (90, None)"
  "up_qualifying default_counter (150, None)"
  "transition_zone default_counter (120, None)"
  by (simp_all add: down_qualifying_def up_qualifying_def transition_zone_def
        in_down_position_def default_counter_def)

lemma default_counter_one_rep:
  "update_all default_counter
     [(90, None), (90, None), (90, None), (150, None), (150, None), (150, None)] =
   ([False, False, False, False, False, True],
    default_counter\<lparr> reps := 1, up_frames := 3 \<rparr>)"
  by (simp add: PushupCounter_update_def in_down_position_def default_counter_def)


subsection \<open>C3: what reset does to the cumulative count\<close>

text \<open>
  C3 (as stated, refuted): reset would leave the cumulative repetition count unchanged.
  After one completed repetition with the default configuration the count is 1, and
  \<open>reset\<close> sets it to 0.
\<close>

theorem reset_keeps_reps_counterexample:
  "reachable (snd (update_all default_counter
       [(90, None), (90, None), (90, None), (150, None), (150, None), (150, None)]))
   \<and> reps (snd (update_all default_counter
       [(90, None), (90, None), (90, None), (150, None), (150, None), (150, None)])) = 1
   \<and> reps (PushupCounter_reset (snd (update_all default_counter
       [(90, None), (90, None), (90, None), (150, None), (150, None), (150, None)]))) = 0"
proof -
  have "reachable (snd (update_all default_counter
       [(90, None), (90, None), (90, None), (150, None), (150, None), (150, None)]))"
    by (rule reachable_update_all[OF default_counter_reachable])
  then show ?thesis
    unfolding default_counter_one_rep by (simp add: PushupCounter_reset_def)
qed

text \<open>
  C3 (amended): for every reachable state of the counter, \<open>reset\<close> sets the phase to up,
  both consecutive-frame counters to 0 and the cumulative repetition count to 0 as well;
  the six configuration values are kept.
\<close>

theorem reset_reinitializes:
  assumes "reachable s"
  shows "state (PushupCounter_reset s) = Up
       \<and> down_frames (PushupCounter_reset s) = 0
       \<and> up_frames (PushupCounter_reset s) = 0
       \<and> reps (PushupCounter_reset s) = 0
       \<and> down_angle (PushupCounter_reset s) = down_angle s
       \<and> angle_tolerance (PushupCounter_reset s) = angle_tolerance s
       \<and> up_th (PushupCounter_reset s) = up_th s
       \<and> parallel_th (PushupCounter_reset s) = parallel_th s
       \<and> min_down_frames (PushupCounter_reset s) = min_down_frames s
       \<and> min_up_frames (PushupCounter_reset s) = min_up_frames s"
  by (simp add: PushupCounter_reset_def)

theorem reset_reinitializes_witness:
  "reachable (snd (update_all default_counter [(90, None), (90, None), (90, None), (150, None)]))
   \<and> reps (PushupCounter_reset
        (snd (update_all default_counter [(90, None), (90, None), (90, None), (150, None)]))) = 0
   \<and> state (snd (update_all default_counter [(90, None), (90, None), (90, None), (150, None)]))
       = Down"
proof -
  have r: "reachable (snd (update_all default_counter
             [(90, None), (90, None), (90, None), (150, None)]))"
    by (rule reachable_update_all[OF default_counter_reachable])
  have d: "state (snd (update_all default_counter
             [(90, None), (90, None), (90, None), (150, None)])) = Down"
    by (simp add: PushupCounter_update_def in_down_position_def default_counter_def)
  from reset_reinitializes[OF r] r d show ?thesis by blast
qed


subsection \<open>C4: hysteresis of the repetition counter\<close>

text \<open>
  C4: from a freshly constructed counter with positive \<open>min_down_frames\<close> and
  \<open>min_up_frames\<close>: after \<open>min_down_frames - 1\<close> down-qualifying frames and one
  transition-zone frame the phase is up, and it was up after every frame on the way; after
  \<open>min_down_frames\<close> down-qualifying frames followed by \<open>min_up_frames\<close> up-qualifying
  frames, the only completed-repetition signal is the one returned for the last frame, and
  the cumulative count is 1.
\<close>

theorem rep_machine_hysteresis:
  assumes c: "PushupCounter_init da tol up par mdf muf = Inr c"
      and mdf: "0 < mdf" and muf: "0 < muf"
  shows "(\<forall>ds t n. length ds = nat (mdf - 1) \<and> (\<forall>f \<in> set ds. down_qualifying c f)
                  \<and> transition_zone c t
            \<longrightarrow> state (snd (update_all c (take n (ds @ [t])))) = Up)
       \<and> (\<forall>ds us. length ds = nat mdf \<and> (\<forall>f \<in> set ds. down_qualifying c f)
                  \<and> length us = nat muf \<and> (\<forall>f \<in> set us. up_qualifying c f)
            \<longrightarrow> fst (update_all c (ds @ us)) = replicate (nat mdf + nat muf - 1) False @ [True]
              \<and> count_list (fst (update_all c (ds @ us))) True = 1
              \<and> reps (snd (update_all c (ds @ us))) = 1)"
proof (intro conjI allI impI)
  have c0: "state c = Up" "reps c = 0" "down_frames c = 0" "up_frames c = 0"
    "min_down_frames c = mdf" "min_up_frames c = muf"
    using c by (auto simp: PushupCounter_init_def)
  {
    fix ds :: "frame_input list" and t :: frame_input and n :: nat
    assume h: "length ds = nat (mdf - 1) \<and> (\<forall>f \<in> set ds. down_qualifying c f)
                 \<and> transition_zone c t"
    have short: "state (snd (update_all c (take k ds))) = Up" for k
    proof -
      have "\<forall>f \<in> set (take k ds). down_qualifying c f"
        using h by (auto dest: in_set_takeD)
      from down_run[OF this c0(1)] have
        "state (snd (update_all c (take k ds))) =
           (if take k ds \<noteq> [] \<and> mdf \<le> int (length (take k ds)) then Down else Up)"
        by (simp add: c0)
      moreover have "int (length (take k ds)) < mdf" using h mdf by simp
      ultimately show ?thesis by simp
    qed
    show "state (snd (update_all c (take n (ds @ [t])))) = Up"
    proof (cases "n \<le> length ds")
      case True
      then show ?thesis using short[of n] by simp
    next
      case False
      then have "take n (ds @ [t]) = ds @ [t]" by simp
      moreover have "transition_zone (snd (update_all c ds)) t"
        using h by (simp add: qualifying_update_all)
      ultimately show ?thesis
        using short[of "length ds"] by (simp add: update_all_snoc transition_step)
    qed
  }
  {
    fix ds us :: "frame_input list"
    assume h: "length ds = nat mdf \<and> (\<forall>f \<in> set ds. down_qualifying c f)
                 \<and> length us = nat muf \<and> (\<forall>f \<in> set us. up_qualifying c f)"
    let ?d = "snd (update_all c ds)"
    have ds: "ds \<noteq> []" "int (length ds) = mdf" using h mdf by auto
    have D: "fst (update_all c ds) = replicate (nat mdf) False" "down_frames ?d = mdf"
      "up_frames ?d = 0" "reps ?d = 0" "state ?d = Down"
      using down_run[of ds c] h c0 ds by simp_all
    obtain vs u where us: "us = vs @ [u]"
      using h muf by (cases us rule: rev_cases) auto
    let ?v = "snd (update_all ?d vs)"
    have vs: "\<forall>f \<in> set vs. up_qualifying ?d f" "int (length vs) < min_up_frames ?d"
      "up_qualifying ?v u" "int (length vs) + 1 = muf"
      using h us by (auto simp: qualifying_update_all update_all_config c0)
    have V: "fst (update_all ?d vs) = replicate (length vs) False"
      "up_frames ?v = int (length vs)" "reps ?v = 0" "state ?v = Down"
      using up_run[OF vs(1) D(5) D(3) vs(2)] D(4) by simp_all
    have last: "PushupCounter_update ?v (fst u) (snd u) =
        (True, ?v\<lparr> up_frames := up_frames ?v + 1, down_frames := 0, state := Up,
                   reps := reps ?v + 1 \<rparr>)"
      using up_step[OF vs(3)] V vs(4) by (simp add: update_all_config c0)
    have sig: "fst (update_all c (ds @ us)) =
        replicate (nat mdf) False @ replicate (length vs) False @ [True]"
      using D(1) V(1) last by (simp add: us update_all_append[of c ds] update_all_snoc)
    have len: "nat mdf + nat muf - 1 = nat mdf + length vs" using vs(4) by simp
    have "replicate (nat mdf + nat muf - 1) False =
            replicate (nat mdf) False @ replicate (length vs) False"
      by (simp only: len replicate_add)
    then show "fst (update_all c (ds @ us)) = replicate (nat mdf + nat muf - 1) False @ [True]"
      using sig by (simp only: append_assoc)
    show "count_list (fst (update_all c (ds @ us))) True = 1"
      using sig by (simp add: count_list_0_iff)
    show "reps (snd (update_all c (ds @ us))) = 1"
      using last V(3) by (simp add: us update_all_append[of c ds] update_all_snoc)
  }
qed

theorem rep_machine_hysteresis_witness:
  "state (snd (update_all default_counter [(90, None), (90, None), (120, None)])) = Up
   \<and> fst (update_all default_counter
        [(90, None), (90, None), (90, None), (150, None), (150, None), (150, None)]) =
       [False, False, False, False, False, True]
   \<and> reps (snd (update_all default_counter
        [(90, None), (90, None), (90, None), (150, None), (150, None), (150, None)])) = 1"
proof -
  have pos: "(0::int) < 3" by simp
  note h = rep_machine_hysteresis[OF default_counter_constructed pos pos]
  have a: "state (snd (update_all default_counter
             (take 3 ([(90, None), (90, None)] @ [(120, None)])))) = Up"
    by (rule h[THEN conjunct1, rule_format]) (simp add: default_counter_frames)
  have b: "fst (update_all default_counter
             ([(90, None), (90, None), (90, None)] @ [(150, None), (150, None), (150, None)])) =
           replicate (nat 3 + nat 3 - 1) False @ [True]
         \<and> count_list (fst (update_all default_counter
             ([(90, None), (90, None), (90, None)] @ [(150, None), (150, None), (150, None)])))
             True = 1
         \<and> reps (snd (update_all default_counter
             ([(90, None), (90, None), (90, None)] @ [(150, None), (150, None), (150, None)]))) = 1"
    by (rule h[THEN conjunct2, rule_format]) (simp add: default_counter_frames)
  have r: "replicate (nat 3 + nat 3 - 1) False @ [True] = [False, False, False, False, False, True]"
    by (simp add: numeral_eq_Suc)
  from a b r show ?thesis by simp
qed


subsection \<open>C10: the two frame counters\<close>

text \<open>
  C10: in every state reachable from a freshly constructed counter by calls of \<open>update\<close>
  and \<open>reset\<close>, both consecutive-frame counters are non-negative and at least one of them
  is 0.
\<close>

theorem frame_counters_invariant:
  assumes "reachable s"
  shows "0 \<le> down_frames s \<and> 0 \<le> up_frames s \<and> (down_frames s = 0 \<or> up_frames s = 0)"
  using assms
proof (induction rule: reachable.induct)
  case (constructed da tol up par mdf muf c)
  then show ?case by (auto simp: PushupCounter_init_def)
next
  case (updated s e d)
  then show ?case by (auto simp: PushupCounter_update_def Let_def)
next
  case (was_reset s)
  then show ?case by (simp add: PushupCounter_reset_def)
qed

theorem frame_counters_invariant_witness:
  "reachable (snd (update_all default_counter [(90, None), (90, None)]))
   \<and> down_frames (snd (update_all default_counter [(90, None), (90, None)])) = 2
   \<and> up_frames (snd (update_all default_counter [(90, None), (90, None)])) = 0"
proof -
  have r: "reachable (snd (update_all default_counter [(90, None), (90, None)]))"
    by (rule reachable_update_all[OF default_counter_reachable])
  have d: "down_frames (snd (update_all default_counter [(90, None), (90, None)])) = 2"
    by (simp add: PushupCounter_update_def in_down_position_def default_counter_def)
  from frame_counters_invariant[OF r] r d show ?thesis by simp
qed


section \<open>Properties of the One Euro filter\<close>


lemma and_then_Inr: "and_then (Inr v) f = f v"
  by (simp add: and_then_def)

lemma and_then_Inl: "and_then (Inl e) f = Inl e"
  by (simp add: and_then_def)

lemma py_float_numeric:
  "py_float (PyFloat r) = Inr r"
  "\<bar>i\<bar> < 2 ^ 1024 - 2 ^ 970 \<Longrightarrow> py_float (PyInt i) = Inr (of_int i)"
  "2 ^ 1024 - 2 ^ 970 \<le> \<bar>i\<bar> \<Longrightarrow> py_float (PyInt i) = Inl OverflowError"
  "py_float PyNone = Inl TypeError"
  by (simp_all add: py_float_def)

lemma small_int_in_range: "\<bar>i\<bar> \<le> 1000000 \<Longrightarrow> \<bar>i :: int\<bar> < 2 ^ 1024 - 2 ^ 970"
proof -
  assume a: "\<bar>i\<bar> \<le> 1000000"
  have "(2::int) ^ 971 \<le> 2 ^ 1024" by (rule power_increasing) simp_all
  moreover have "(2::int) ^ 971 = 2 * 2 ^ 970" by simp
  moreover have "(1000000::int) < 2 ^ 20" by simp
  moreover have "(2::int) ^ 20 \<le> 2 ^ 970" by (rule power_increasing) simp_all
  ultimately show ?thesis using a by linarith
qed

lemma init_ok:
  assumes "py_float vf = Inr fr" "py_float vm = Inr mc" "py_float vb = Inr b"
      "py_float vd = Inr dc"
  shows "OneEuroFilter_init vf vm vb vd =
           Inr \<lparr> freq = fr, min_cutoff = mc, beta = b, d_cutoff = dc,
                 x_prev = None, dx_prev = None, t_prev = None \<rparr>"
  by (simp add: OneEuroFilter_init_def assms and_then_Inr)

lemma init_fails_iff:
  "isl (OneEuroFilter_init vf vm vb vd) \<longleftrightarrow>
     isl (py_float vf) \<or> isl (py_float vm) \<or> isl (py_float vb) \<or> isl (py_float vd)"
  by (cases "py_float vf"; cases "py_float vm"; cases "py_float vb"; cases "py_float vd")
     (simp_all add: OneEuroFilter_init_def and_then_def)

lemma init_fields:
  assumes "OneEuroFilter_init vf vm vb vd = Inr f0"
  shows "t_prev f0 = None" "x_prev f0 = None" "dx_prev f0 = None"
    "py_float vf = Inr (freq f0)" "py_float vm = Inr (min_cutoff f0)"
    "py_float vb = Inr (beta f0)" "py_float vd = Inr (d_cutoff f0)"
  using assms
  by (cases "py_float vf"; cases "py_float vm"; cases "py_float vb"; cases "py_float vd";
      auto simp: OneEuroFilter_init_def and_then_def)+


lemma alpha_zero_cutoff: "alpha 0 fr = Inl ZeroDivisionError"
  by (simp add: alpha_def truediv_def and_then_def)

lemma dt_bounds:
  "1 / 1000000 \<le> max (1 / 1000000) (d::real)"
  "0 < max (1 / 1000000) d"
  "0 < 1 / max (1 / 1000000) d"
  "1 / max (1 / 1000000) d \<le> 1000000"
proof -
  show a: "1 / 1000000 \<le> max (1 / 1000000) d" by simp
  then show b: "0 < max (1 / 1000000) d" by linarith
  then show "0 < 1 / max (1 / 1000000) d" by simp
  have "1 / max (1 / 1000000) d \<le> 1 / (1 / 1000000)"
    using a by (intro divide_left_mono) (simp_all add: b)
  then show "1 / max (1 / 1000000) d \<le> 1000000" by simp
qed



lemma call_initialised:
  assumes "OneEuroFilter_call clock self x t = Inr (y, self')"
  shows "t_prev self' = Some (case t of None \<Rightarrow> clock | Some t' \<Rightarrow> t')
       \<and> x_prev self' = Some y \<and> dx_prev self' \<noteq> None
       \<and> freq self' = freq self \<and> min_cutoff self' = min_cutoff self
       \<and> beta self' = beta self \<and> d_cutoff self' = d_cutoff self"
  using assms
  by (auto simp: OneEuroFilter_call_def Let_def and_then_def
           split: option.splits sum.splits)



text \<open>
  What a zero derivative cutoff leads to: the constructor accepts it, the first call
  succeeds, and every later call raises \<open>ZeroDivisionError\<close> inside \<open>_alpha\<close>.
\<close>

lemma zero_d_cutoff_fails_later:
  assumes "OneEuroFilter_init vf vm vb (PyFloat 0) = Inr f0"
      and "OneEuroFilter_call clock0 f0 x0 t0 = Inr (y0, f1)"
  shows "OneEuroFilter_call clock f1 x t = Inl ZeroDivisionError"
proof -
  have f0: "t_prev f0 = None" "d_cutoff f0 = 0"
    using init_fields[OF assms(1)] by (simp_all add: py_float_def)
  obtain tp xp where f1: "t_prev f1 = Some tp" "x_prev f1 = Some xp" "d_cutoff f1 = 0"
    using call_initialised[OF assms(2)] f0 by auto
  have "truediv 1 (max (1 / 1000000) (now - tp)) = Inr (1 / max (1 / 1000000) (now - tp))"
    for now
    using dt_bounds(2)[of "now - tp"] by (simp add: truediv_def)
  then show ?thesis
    unfolding OneEuroFilter_call_def Let_def
    by (simp add: f1 and_then_Inr and_then_Inl alpha_zero_cutoff)
qed


subsection \<open>C2: invalid configuration at construction time\<close>

text \<open>
  C2 (as stated, refuted): constructing a component with an invalid configuration value
  would raise. A filter with minimum and derivative cutoff 0, and a counter with negative
  tolerance, parallelism threshold and frame minimum, are both constructed without error.
\<close>

theorem invalid_config_counterexample:
  "OneEuroFilter_init (PyFloat 120) (PyFloat 0) (PyFloat 0) (PyFloat 0) =
     Inr \<lparr> freq = 120, min_cutoff = 0, beta = 0, d_cutoff = 0,
           x_prev = None, dx_prev = None, t_prev = None \<rparr>
   \<and> PushupCounter_init 90 (- 15) 140 (- 20) 0 (- 3) =
     Inr \<lparr> state = Up, reps = 0, down_frames = 0, up_frames = 0,
           down_angle = 90, angle_tolerance = - 15, up_th = 140, parallel_th = - 20,
           min_down_frames = 0, min_up_frames = - 3 \<rparr>"
  by (simp add: OneEuroFilter_init_def py_float_def and_then_def PushupCounter_init_def)

text \<open>
  C2 (amended): a zero or negative configuration value is not rejected at construction.
  The filter's constructor fails exactly when one of its four \<open>float\<close> conversions fails;
  \<open>float\<close> accepts every float and every int below \<open>2 ** 1024 - 2 ** 970\<close> in absolute
  value, whatever its sign, and the constructor then stores the four converted values and
  starts uninitialized. The counter's constructor stores its six arguments unchanged and
  always succeeds.
\<close>

theorem construction_checks_no_value:
  "(py_float vf = Inr fr \<and> py_float vm = Inr mc \<and> py_float vb = Inr b \<and> py_float vd = Inr dc
      \<longrightarrow> OneEuroFilter_init vf vm vb vd =
            Inr \<lparr> freq = fr, min_cutoff = mc, beta = b, d_cutoff = dc,
                  x_prev = None, dx_prev = None, t_prev = None \<rparr>)
   \<and> (isl (OneEuroFilter_init vf vm vb vd) \<longleftrightarrow>
        isl (py_float vf) \<or> isl (py_float vm) \<or> isl (py_float vb) \<or> isl (py_float vd))
   \<and> py_float (PyFloat r) = Inr r
   \<and> (\<bar>i\<bar> < 2 ^ 1024 - 2 ^ 970 \<longrightarrow> py_float (PyInt i) = Inr (of_int i))
   \<and> PushupCounter_init da tol up par mdf muf =
       Inr \<lparr> state = Up, reps = 0, down_frames = 0, up_frames = 0,
             down_angle = da, angle_tolerance = tol, up_th = up, parallel_th = par,
             min_down_frames = mdf, min_up_frames = muf \<rparr>"
proof -
  have p: "PushupCounter_init da tol up par mdf muf =
       Inr \<lparr> state = Up, reps = 0, down_frames = 0, up_frames = 0,
             down_angle = da, angle_tolerance = tol, up_th = up, parallel_th = par,
             min_down_frames = mdf, min_up_frames = muf \<rparr>"
    by (simp add: PushupCounter_init_def)
  show ?thesis
    using init_ok[of vf fr vm mc vb b vd dc] init_fails_iff[of vf vm vb vd]
      py_float_numeric(1)[of r] py_float_numeric(2)[of i] p
    by blast
qed

theorem construction_checks_no_value_witness:
  "py_float (PyInt 120) = Inr 120 \<and> py_float (PyInt 0) = Inr 0
   \<and> py_float (PyFloat 0) = Inr 0 \<and> py_float (PyFloat (- 1)) = Inr (- 1)
   \<and> OneEuroFilter_init (PyInt 120) (PyInt 0) (PyFloat 0) (PyFloat (- 1)) =
       Inr \<lparr> freq = 120, min_cutoff = 0, beta = 0, d_cutoff = - 1,
             x_prev = None, dx_prev = None, t_prev = None \<rparr>"
proof -
  have r120: "\<bar>120 :: int\<bar> < 2 ^ 1024 - 2 ^ 970" by (rule small_int_in_range) simp
  have r0: "\<bar>0 :: int\<bar> < 2 ^ 1024 - 2 ^ 970" by (rule small_int_in_range) simp
  have a: "py_float (PyInt 120) = Inr (of_int 120)"
    using construction_checks_no_value[where i = 120] r120 by blast
  have b: "py_float (PyInt 0) = Inr (of_int 0)"
    using construction_checks_no_value[where i = 0] r0 by blast
  have c: "py_float (PyFloat 0) = Inr 0"
    using construction_checks_no_value[where r = 0] by blast
  have d: "py_float (PyFloat (- 1)) = Inr (- 1)"
    using construction_checks_no_value[where r = "- 1"] by blast
  have a': "py_float (PyInt 120) = Inr 120" using a by (simp only: of_int_numeral)
  have b': "py_float (PyInt 0) = Inr 0" using b by (simp only: of_int_0)
  have "OneEuroFilter_init (PyInt 120) (PyInt 0) (PyFloat 0) (PyFloat (- 1)) =
       Inr \<lparr> freq = 120, min_cutoff = 0, beta = 0, d_cutoff = - 1,
             x_prev = None, dx_prev = None, t_prev = None \<rparr>"
    using construction_checks_no_value[where vf = "PyInt 120" and fr = 120 and vm = "PyInt 0"
        and mc = 0 and vb = "PyFloat 0" and b = 0 and vd = "PyFloat (- 1)" and dc = "- 1"]
      a' b' c d by blast
  with a' b' c d show ?thesis by blast
qed


subsection \<open>C9: cold start of the filter\<close>

text \<open>
  C9: a call on a filter in the uninitialized state (\<open>t_prev\<close> is \<open>None\<close>: freshly
  constructed or reset) returns the raw input unchanged, stores it as the previous filtered
  value, sets the stored derivative to 0 and stores the timestamp; the configuration is
  untouched.
\<close>

theorem filter_cold_start:
  assumes "t_prev self = None"
  shows "OneEuroFilter_call clock self x t =
           Inr (x, self\<lparr> t_prev := Some (case t of None \<Rightarrow> clock | Some t' \<Rightarrow> t'),
                        x_prev := Some x, dx_prev := Some 0 \<rparr>)"
  using assms by (simp add: OneEuroFilter_call_def)

theorem filter_cold_start_witness:
  "t_prev \<lparr> freq = 120, min_cutoff = 1, beta = 0, d_cutoff = 1,
            x_prev = None, dx_prev = None, t_prev = None \<rparr> = None
   \<and> OneEuroFilter_call 0 \<lparr> freq = 120, min_cutoff = 1, beta = 0, d_cutoff = 1,
                            x_prev = None, dx_prev = None, t_prev = None \<rparr> 5 (Some 10) =
       Inr (5, \<lparr> freq = 120, min_cutoff = 1, beta = 0, d_cutoff = 1,
                 x_prev = Some 5, dx_prev = Some 0, t_prev = Some 10 \<rparr>)"
proof -
  have h: "t_prev \<lparr> freq = 120, min_cutoff = 1, beta = 0, d_cutoff = 1,
                     x_prev = None, dx_prev = None, t_prev = None \<rparr> = None"
    by simp
  from filter_cold_start[OF h, of 0 5 "Some 10"] h show ?thesis by simp
qed


subsection \<open>C6: the clamped time delta\<close>





section \<open>Properties of the geometry functions\<close>

lemma cauchy_schwarz_2d:
  "\<bar>np_dot u v\<bar> \<le> np_linalg_norm u * np_linalg_norm v"
proof -
  obtain x1 y1 where u: "u = (x1, y1)" by (cases u)
  obtain x2 y2 where v: "v = (x2, y2)" by (cases v)
  have "(x1 * x2 + y1 * y2)\<^sup>2 \<le> (x1 * x1 + y1 * y1) * (x2 * x2 + y2 * y2)"
    using zero_le_power2[of "x1 * y2 - x2 * y1"]
    by (simp add: power2_eq_square algebra_simps)
  then have "sqrt ((x1 * x2 + y1 * y2)\<^sup>2) \<le> sqrt ((x1 * x1 + y1 * y1) * (x2 * x2 + y2 * y2))"
    by (rule real_sqrt_le_mono)
  then show ?thesis
    by (simp add: u v np_dot_def np_linalg_norm_def real_sqrt_mult)
qed

lemma degrees_arccos_range:
  assumes "- 1 \<le> y" "y \<le> 1"
  shows "0 \<le> np_degrees (arccos y)" "np_degrees (arccos y) \<le> 180"
proof -
  have a: "0 \<le> arccos y" "arccos y \<le> pi" using assms by (simp_all add: arccos_lbound arccos_ubound)
  show "0 \<le> np_degrees (arccos y)" using a(1) by (simp add: np_degrees_def)
  have "arccos y * (180 / pi) \<le> pi * (180 / pi)"
    using a(2) by (intro mult_right_mono) simp_all
  then show "np_degrees (arccos y) \<le> 180" by (simp add: np_degrees_def)
qed

lemma angle_degenerate:
  "np_linalg_norm (np_sub a b) < 1 / 1000000000 \<or> np_linalg_norm (np_sub c b) < 1 / 1000000000
   \<Longrightarrow> angle a b c = 0"
  by (auto simp: angle_def Let_def)

lemma angle_regular:
  assumes "\<not> (np_linalg_norm (np_sub a b) < 1 / 1000000000
             \<or> np_linalg_norm (np_sub c b) < 1 / 1000000000)"
  shows "angle a b c =
           np_degrees (arccos (max (- 1) (min 1
             (np_dot (np_sub a b) (np_sub c b)
                / (np_linalg_norm (np_sub a b) * np_linalg_norm (np_sub c b))))))"
    and "cos (angle a b c * pi / 180) =
           np_dot (np_sub a b) (np_sub c b)
             / (np_linalg_norm (np_sub a b) * np_linalg_norm (np_sub c b))"
proof -
  let ?d = "np_dot (np_sub a b) (np_sub c b)"
  let ?n = "np_linalg_norm (np_sub a b) * np_linalg_norm (np_sub c b)"
  show A: "angle a b c = np_degrees (arccos (max (- 1) (min 1 (?d / ?n))))"
    using assms by (simp add: angle_def Let_def)
  have pos: "0 < ?n" using assms by (simp add: not_less)
  have "\<bar>?d\<bar> \<le> ?n" by (rule cauchy_schwarz_2d)
  then have "- ?n \<le> ?d" "?d \<le> ?n" by linarith+
  then have r: "- 1 \<le> ?d / ?n" "?d / ?n \<le> 1"
    using pos by (simp_all only: pos_le_divide_eq pos_divide_le_eq mult_minus_left mult_1)
  then have "max (- 1) (min 1 (?d / ?n)) = ?d / ?n" by simp
  then have "angle a b c * pi / 180 = arccos (?d / ?n)"
    by (simp add: A np_degrees_def)
  then show "cos (angle a b c * pi / 180) = ?d / ?n"
    using r by (simp add: cos_arccos)
qed

lemma angle_range: "0 \<le> angle a b c" "angle a b c \<le> 180"
  by (simp_all add: angle_def Let_def degrees_arccos_range)

lemma angle_examples:
  "angle (1, 0) (0, 0) (0, 1) = 90"
  "angle (- 1, 0) (0, 0) (1, 0) = 180"
  "angle p p q = 0"
  by (simp_all add: angle_def Let_def np_sub_def np_dot_def np_linalg_norm_def np_degrees_def)


subsection \<open>C8: the angle at a vertex\<close>

text \<open>
  C8: for all points \<open>a\<close>, \<open>b\<close>, \<open>c\<close> the result of \<open>angle\<close> lies in \<open>[0, 180]\<close>; it is
  0 when one of the rays from \<open>b\<close> is shorter than \<open>1e-9\<close>; otherwise it is the inverse
  cosine, in degrees, of the normalized dot product clamped to \<open>[-1, 1]\<close>, and its cosine
  is the normalized dot product of the two rays (it is the angle at \<open>b\<close>). The three
  values named by the specification are 90, 180 and 0.
\<close>

theorem angle_at_vertex:
  "0 \<le> angle a b c \<and> angle a b c \<le> 180
   \<and> (np_linalg_norm (np_sub a b) < 1 / 1000000000
        \<or> np_linalg_norm (np_sub c b) < 1 / 1000000000 \<longrightarrow> angle a b c = 0)
   \<and> (\<not> (np_linalg_norm (np_sub a b) < 1 / 1000000000
           \<or> np_linalg_norm (np_sub c b) < 1 / 1000000000) \<longrightarrow>
         angle a b c =
           np_degrees (arccos (max (- 1) (min 1
             (np_dot (np_sub a b) (np_sub c b)
                / (np_linalg_norm (np_sub a b) * np_linalg_norm (np_sub c b))))))
         \<and> cos (angle a b c * pi / 180) =
             np_dot (np_sub a b) (np_sub c b)
               / (np_linalg_norm (np_sub a b) * np_linalg_norm (np_sub c b)))
   \<and> angle (1, 0) (0, 0) (0, 1) = 90
   \<and> angle (- 1, 0) (0, 0) (1, 0) = 180
   \<and> angle p p q = 0"
  using angle_range[of a b c] angle_degenerate[of a b c] angle_regular[of a b c]
    angle_examples(1,2) angle_examples(3)[of p q]
  by blast

theorem angle_at_vertex_witness:
  "\<not> (np_linalg_norm (np_sub (1, 0) (0, 0)) < 1 / 1000000000
       \<or> np_linalg_norm (np_sub (0, 1) (0, 0)) < 1 / 1000000000)
   \<and> cos (angle (1, 0) (0, 0) (0, 1) * pi / 180) = 0
   \<and> np_linalg_norm (np_sub (2, 2) (2, 2)) < 1 / 1000000000
   \<and> angle (2, 2) (2, 2) (5, 5) = 0"
proof -
  have reg: "\<not> (np_linalg_norm (np_sub (1, 0) (0, 0)) < 1 / 1000000000
       \<or> np_linalg_norm (np_sub (0, 1) (0, 0)) < 1 / 1000000000)"
    by (simp add: np_linalg_norm_def np_sub_def)
  have deg: "np_linalg_norm (np_sub (2, 2) (2, 2)) < 1 / 1000000000
       \<or> np_linalg_norm (np_sub (5, 5) (2, 2)) < 1 / 1000000000"
    by (simp add: np_linalg_norm_def np_sub_def)
  have d: "np_dot (np_sub (1, 0) (0, 0)) (np_sub (0, 1) (0, 0)) = 0"
    by (simp add: np_dot_def np_sub_def)
  have "cos (angle (1, 0) (0, 0) (0, 1) * pi / 180) =
          np_dot (np_sub (1, 0) (0, 0)) (np_sub (0, 1) (0, 0))
            / (np_linalg_norm (np_sub (1, 0) (0, 0)) * np_linalg_norm (np_sub (0, 1) (0, 0)))"
    using angle_at_vertex[of "(1, 0)" "(0, 0)" "(0, 1)"] reg by blast
  then have a: "cos (angle (1, 0) (0, 0) (0, 1) * pi / 180) = 0"
    by (simp only: d div_0)
  have b: "angle (2, 2) (2, 2) (5, 5) = 0"
    using angle_at_vertex[of "(2, 2)" "(2, 2)" "(5, 5)"] deg by blast
  have c: "np_linalg_norm (np_sub (2, 2) (2, 2)) < 1 / 1000000000"
    by (simp add: np_linalg_norm_def np_sub_def)
  from reg a b c show ?thesis by blast
qed


section \<open>Properties of the scorer\<close>

lemma linear_search_2:
  "linear_search key [a, b] (Suc 0) = (if key \<ge> b then 1 else 0)"
  by (subst linear_search.simps, subst linear_search.simps) simp

lemma binary_search_with_guess_2:
  "binary_search_with_guess key [a, b] =
     (if key > b then 2 else if key < a then - 1 else if key \<ge> b then 1 else 0)"
  by (simp add: binary_search_with_guess_def linear_search_2)

lemma np_interp_2:
  "np_interp x [a, b] [fa, fb] =
     Inr (if x > b then fb
          else if x < a then fa
          else if x \<ge> b then fb
          else if a = x then fa
          else (fb - fa) / (b - a) * (x - a) + fa)"
  by (simp add: np_interp_def binary_search_with_guess_2 Let_def)

lemma np_interp_increasing:
  assumes "a < b"
  shows "np_interp x [a, b] [fa, fb] =
     Inr (if x \<le> a then fa else if b \<le> x then fb else fa + (fb - fa) * (x - a) / (b - a))"
  using assms by (auto simp: np_interp_2 algebra_simps)

lemma np_interp_decreasing:
  assumes "b < a"
  shows "np_interp x [a, b] [fa, fb] = Inr (if x > b then fb else fa)"
  using assms by (auto simp: np_interp_2)

lemma np_interp_examples:
  "np_interp 90 [110, 70] [0, 100] = Inr 100"
  "np_interp 60 [110, 70] [0, 100] = Inr 0"
  "np_interp 140 [120, 160] [0, 100] = Inr 50"
  by (simp_all add: np_interp_2)

lemma np_min_nonempty: "xs \<noteq> [] \<Longrightarrow> np_min xs = Inr (fold min (tl xs) (hd xs))"
  by (cases xs) simp_all

lemma np_max_nonempty: "xs \<noteq> [] \<Longrightarrow> np_max xs = Inr (fold max (tl xs) (hd xs))"
  by (cases xs) simp_all


lemma argmin_from_bound:
  "best_i < i \<Longrightarrow> argmin_from xs i best best_i < i + length xs"
proof (induction xs arbitrary: i best best_i)
  case Nil
  then show ?case by simp
next
  case (Cons x xs)
  show ?case
    using Cons.IH[of i "Suc i" x] Cons.IH[of best_i "Suc i" best] Cons.prems by auto
qed

lemma np_argmin_nonempty:
  "xs \<noteq> [] \<Longrightarrow> \<exists>k. np_argmin xs = Inr k \<and> k < length xs"
  using argmin_from_bound[of 0 1] by (cases xs) auto


lemma ROM_ok:
  assumes "eL \<noteq> []" "eR \<noteq> []"
  shows "\<exists>v. ROM eL eR = Inr v"
  using assms
  by (simp add: ROM_def rom_bottom_score_def rom_top_score_def np_min_nonempty
        np_max_nonempty and_then_Inr np_interp_2)

lemma depth_score_ok:
  assumes "sh \<noteq> []" "hp \<noteq> []"
  shows "\<exists>v. depth_score sh hp = Inr v"
proof -
  obtain s ss where s: "sh = s # ss" using assms(1) by (cases sh) auto
  obtain h hs where h: "hp = h # hs" using assms(2) by (cases hp) auto
  show ?thesis
    by (simp add: depth_score_def s h and_then_Inr np_interp_2)
qed

lemma bodyline_score_ok: "\<exists>v. bodyline_score ld = Inr v"
  by (simp add: bodyline_score_def np_interp_2)

lemma stability_score_ok: "\<exists>v. stability_score hp = Inr v"
  by (simp add: stability_score_def np_interp_2 and_then_Inr)

lemma np_get_ok: "k < length a \<Longrightarrow> np_get a (int k) = Inr (a ! k)"
  by (simp add: np_get_def)

lemma np_get_last: "a \<noteq> [] \<Longrightarrow> np_get a (- 1) = Inr (last a)"
  by (simp add: np_get_def Let_def last_conv_nth nat_diff_distrib')

lemma symmetry_score_ok:
  assumes "k < length eL" "k < length eR"
  shows "\<exists>v. symmetry_score eL eR k = Inr v"
proof -
  have ne: "eL \<noteq> []" "eR \<noteq> []" using assms by auto
  show ?thesis
    unfolding symmetry_score_def
    by (simp add: np_get_ok[OF assms(1)] np_get_ok[OF assms(2)] np_get_last[OF ne(1)]
          np_get_last[OF ne(2)] and_then_Inr np_interp_2 Let_def)
qed

lemma finalize_empty:
  "finalize [] td tu fps =
     Inr \<lparr> score = 0, breakdown = [], notes = Some [''No frames captured''] \<rparr>"
  by (simp add: finalize_def)

lemma finalize_shape:
  assumes ne: "frames \<noteq> []" and fps: "fps \<noteq> 0"
  shows "\<exists>rom depth bodyline tempo stability symmetry down_s up_s.
           finalize frames td tu fps =
             Inr \<lparr> score = py_round
                      (0.35 * np_clip rom 0 100 + 0.15 * np_clip depth 0 100
                       + 0.20 * np_clip bodyline 0 100 + 0.10 * np_clip tempo 0 100
                       + 0.10 * np_clip stability 0 100 + 0.10 * np_clip symmetry 0 100) 1,
                   breakdown =
                     [(''ROM'', np_clip rom 0 100), (''Depth'', np_clip depth 0 100),
                      (''BodyLine'', np_clip bodyline 0 100), (''Tempo'', np_clip tempo 0 100),
                      (''Stability'', np_clip stability 0 100),
                      (''Symmetry'', np_clip symmetry 0 100),
                      (''down_seconds'', py_round down_s 2),
                      (''up_seconds'', py_round up_s 2)],
                   notes = None \<rparr>"
proof -
  let ?eL = "map elbowL frames" and ?eR = "map elbowR frames"
  let ?me = "map2 (\<lambda>l r. (l + r) / 2.0) ?eL ?eR"
  have me: "?me \<noteq> []" using ne by (cases frames) auto
  obtain rom where rom: "ROM ?eL ?eR = Inr rom"
    using ROM_ok[of ?eL ?eR] ne by auto
  obtain depth where depth: "depth_score (map shoulder_y frames) (map hip_y frames) = Inr depth"
    using depth_score_ok[of "map shoulder_y frames" "map hip_y frames"] ne by auto
  obtain bodyline where bodyline: "bodyline_score (map line_dev frames) = Inr bodyline"
    using bodyline_score_ok by blast
  obtain k where k: "np_argmin ?me = Inr k" "k < length ?me"
    using np_argmin_nonempty[OF me] by blast
  have kl: "k < length ?eL" "k < length ?eR" using k(2) by simp_all
  obtain stability where stability: "stability_score (map hip_y frames) = Inr stability"
    using stability_score_ok by blast
  obtain symmetry where symmetry: "symmetry_score ?eL ?eR k = Inr symmetry"
    using symmetry_score_ok[OF kl] by blast
  show ?thesis
    unfolding finalize_def Let_def
    using ne fps rom depth bodyline k(1) stability symmetry
    by (simp add: and_then_Inr truediv_def) (intro exI conjI, (rule refl)+)
qed

lemma np_clip_bounds: "0 \<le> np_clip x 0 100" "np_clip x 0 100 \<le> 100"
  by (simp_all add: np_clip_def)

lemma py_round_1_bounds:
  assumes "0 \<le> x" "x \<le> 100"
  shows "0 \<le> py_round x 1" "py_round x 1 \<le> 100"
proof -
  define y where "y = x * 10"
  define f where "f = \<lfloor>y\<rfloor>"
  have y: "0 \<le> y" "y \<le> 1000" using assms by (simp_all add: y_def)
  have f0: "0 \<le> f" using y(1) by (simp add: f_def)
  have f1: "f \<le> 1000" using y(2) by (simp add: f_def floor_le_iff) 
  have fy: "of_int f \<le> y" by (simp add: f_def)
  have top: "y - of_int f < 1 / 2" if "f = 1000"
    using that y(2) fy by simp
  have r: "py_round x 1 =
      (if y - of_int f < 1 / 2 then of_int f
       else if y - of_int f > 1 / 2 then of_int f + 1
       else if even f then of_int f else of_int f + 1) / 10"
    by (simp add: py_round_def Let_def y_def f_def)
  show "0 \<le> py_round x 1" unfolding r using f0 by simp
  have "(if y - of_int f < 1 / 2 then of_int f
       else if y - of_int f > 1 / 2 then of_int f + 1
       else if even f then of_int f else of_int f + 1) \<le> (1000::real)"
  proof (cases "f = 1000")
    case True
    then show ?thesis using top by simp
  next
    case False
    then have "f + 1 \<le> 1000" using f1 by simp
    then have "(of_int f :: real) + 1 \<le> 1000" by (metis of_int_le_iff of_int_add of_int_1 of_int_numeral)
    then show ?thesis by auto
  qed
  then show "py_round x 1 \<le> 100" unfolding r by simp
qed

lemma weighted_sum_bounds:
  fixes a b c d e f :: real
  assumes "0 \<le> a" "a \<le> 100" "0 \<le> b" "b \<le> 100" "0 \<le> c" "c \<le> 100"
          "0 \<le> d" "d \<le> 100" "0 \<le> e" "e \<le> 100" "0 \<le> f" "f \<le> 100"
  shows "0 \<le> 0.35 * a + 0.15 * b + 0.20 * c + 0.10 * d + 0.10 * e + 0.10 * f"
    and "0.35 * a + 0.15 * b + 0.20 * c + 0.10 * d + 0.10 * e + 0.10 * f \<le> 100"
  using assms by simp_all


lemma rom_bottom_step:
  assumes "eL \<noteq> []" "eR \<noteq> []"
  shows "rom_bottom_score eL eR =
           Inr (if 70 < min (fold min (tl eL) (hd eL)) (fold min (tl eR) (hd eR)) then 100 else 0)"
  using assms
  by (simp add: rom_bottom_score_def np_min_nonempty and_then_Inr np_interp_decreasing)

lemma rom_top_linear:
  assumes "eL \<noteq> []" "eR \<noteq> []"
  shows "rom_top_score eL eR =
           Inr (let m = max (fold max (tl eL) (hd eL)) (fold max (tl eR) (hd eR))
                in if m \<le> 120 then 0 else if 160 \<le> m then 100 else (m - 120) * 100 / 40)"
  using assms
  by (simp add: rom_top_score_def np_max_nonempty and_then_Inr np_interp_increasing Let_def)

lemma rom_bottom_score_90: "rom_bottom_score [90] [90] = Inr 100"
  by (simp add: rom_bottom_score_def and_then_Inr np_interp_2)

lemma ROM_90: "ROM [90] [90] = Inr 60"
  by (simp add: ROM_def rom_bottom_score_def rom_top_score_def and_then_Inr np_interp_2)

lemma np_percentile_single: "np_percentile [0] 90 = 0"
  by (simp add: np_percentile_def)

lemma np_std_single: "np_std [1 / 2] = 0"
  by (simp add: np_std_def np_mean_def)

lemma finalize_single_frame_90:
  "finalize [\<lparr> elbowL = 90, elbowR = 90, shoulder_y = 0.5, hip_y = 0.5, line_dev = 0 \<rparr>] 2 1 30
   = Inr \<lparr> score = 61.2,
           breakdown = [(''ROM'', 60), (''Depth'', 0), (''BodyLine'', 100), (''Tempo'', 7 / 3),
                        (''Stability'', 100), (''Symmetry'', 100),
                        (''down_seconds'', 0.03), (''up_seconds'', 0.03)],
           notes = None \<rparr>"
  apply (simp add: finalize_def ROM_90 and_then_Inr depth_score_def bodyline_score_def np_interp_2
      np_percentile_single np_std_single truediv_def tempo_phase_def stability_score_def symmetry_score_def np_get_def
      np_clip_def Let_def)
  apply (simp add: py_round_def Let_def)
  done


subsection \<open>C1: the range-of-motion score\<close>

text \<open>
  C1 (the code departs from it): a single buffered frame with both elbow angles at 90
  degrees. The claim gives a bottom-score of 50, hence a ROM sub-score of
  \<open>0.6 * 50 + 0.4 * 0 = 30\<close>. \<open>np.interp\<close> is called with the decreasing table
  \<open>[110, 70]\<close>; its search returns the right fill value for every angle above 70 and the
  left one otherwise, so the bottom-score is 100, the ROM sub-score 60 and the final score
  61.2. By \<open>rom_bottom_step\<close> the bottom-score is never strictly between 0 and 100; by
  \<open>rom_top_linear\<close> the top-score is the interpolation the claim describes.
\<close>

theorem rom_bottom_score_not_interpolated:
  "rom_bottom_score [90] [90] = Inr 100
   \<and> rom_bottom_score [60] [60] = Inr 0
   \<and> finalize [\<lparr> elbowL = 90, elbowR = 90, shoulder_y = 0.5, hip_y = 0.5, line_dev = 0 \<rparr>]
        2 1 30
     = Inr \<lparr> score = 61.2,
             breakdown = [(''ROM'', 60), (''Depth'', 0), (''BodyLine'', 100), (''Tempo'', 7 / 3),
                          (''Stability'', 100), (''Symmetry'', 100),
                          (''down_seconds'', 0.03), (''up_seconds'', 0.03)],
             notes = None \<rparr>"
proof -
  have "rom_bottom_score [60] [60] = Inr 0"
    by (simp add: rom_bottom_score_def and_then_Inr np_interp_2)
  then show ?thesis
    using rom_bottom_score_90 finalize_single_frame_90 by (intro conjI)
qed


subsection \<open>C5: every sub-score and the final score lie in [0, 100]\<close>

text \<open>
  C5: for a non-empty buffer and positive \<open>fps\<close> and target durations, \<open>finalize\<close>
  returns a result in which each of the six sub-scores of the breakdown lies in
  \<open>[0, 100]\<close>, and so does the final score.
\<close>

theorem scorer_bound:
  assumes "frames \<noteq> []" and "0 < fps" and "0 < target_down_s" and "0 < target_up_s"
  shows "\<exists>r. finalize frames target_down_s target_up_s fps = Inr r
           \<and> (\<forall>k \<in> set sub_scores. \<exists>v. map_of (breakdown r) k = Some v \<and> 0 \<le> v \<and> v \<le> 100)
           \<and> 0 \<le> score r \<and> score r \<le> 100"
proof -
  have fps: "fps \<noteq> 0" using assms(2) by simp
  obtain rom depth bodyline tempo stability symmetry down_s up_s where
    r: "finalize frames target_down_s target_up_s fps =
             Inr \<lparr> score = py_round
                      (0.35 * np_clip rom 0 100 + 0.15 * np_clip depth 0 100
                       + 0.20 * np_clip bodyline 0 100 + 0.10 * np_clip tempo 0 100
                       + 0.10 * np_clip stability 0 100 + 0.10 * np_clip symmetry 0 100) 1,
                   breakdown =
                     [(''ROM'', np_clip rom 0 100), (''Depth'', np_clip depth 0 100),
                      (''BodyLine'', np_clip bodyline 0 100), (''Tempo'', np_clip tempo 0 100),
                      (''Stability'', np_clip stability 0 100),
                      (''Symmetry'', np_clip symmetry 0 100),
                      (''down_seconds'', py_round down_s 2),
                      (''up_seconds'', py_round up_s 2)],
                   notes = None \<rparr>"
    using finalize_shape[OF assms(1) fps] by blast
  note w = weighted_sum_bounds[OF np_clip_bounds[of rom] np_clip_bounds[of depth]
      np_clip_bounds[of bodyline] np_clip_bounds[of tempo] np_clip_bounds[of stability]
      np_clip_bounds[of symmetry]]
  note s = py_round_1_bounds[OF w]
  show ?thesis
    unfolding r using s by (simp add: sub_scores_def np_clip_bounds)
qed


theorem scorer_bound_witness:
  "[\<lparr> elbowL = 170, elbowR = 165, shoulder_y = 0.6, hip_y = 0.5, line_dev = 4 \<rparr>,
    \<lparr> elbowL = 80, elbowR = 85, shoulder_y = 0.58, hip_y = 0.5, line_dev = 7 \<rparr>] \<noteq> []
   \<and> (0::real) < 30 \<and> (0::real) < 2 \<and> (0::real) < 1
   \<and> (\<exists>r. finalize
          [\<lparr> elbowL = 170, elbowR = 165, shoulder_y = 0.6, hip_y = 0.5, line_dev = 4 \<rparr>,
           \<lparr> elbowL = 80, elbowR = 85, shoulder_y = 0.58, hip_y = 0.5, line_dev = 7 \<rparr>]
          2 1 30 = Inr r
        \<and> (\<exists>v. map_of (breakdown r) ''Tempo'' = Some v \<and> 0 \<le> v \<and> v \<le> 100)
        \<and> 0 \<le> score r \<and> score r \<le> 100)"
proof -
  let ?fs = "[\<lparr> elbowL = 170, elbowR = 165, shoulder_y = 0.6, hip_y = 0.5, line_dev = 4 \<rparr>,
              \<lparr> elbowL = 80, elbowR = 85, shoulder_y = 0.58, hip_y = 0.5, line_dev = 7 \<rparr>]"
  have h: "?fs \<noteq> []" "(0::real) < 30" "(0::real) < 2" "(0::real) < 1" by simp_all
  obtain r where r: "finalize ?fs 2 1 30 = Inr r"
      "\<forall>k \<in> set sub_scores. \<exists>v. map_of (breakdown r) k = Some v \<and> 0 \<le> v \<and> v \<le> 100"
      "0 \<le> score r" "score r \<le> 100"
    using scorer_bound[OF h] by blast
  have "''Tempo'' \<in> set sub_scores" by (simp add: sub_scores_def)
  with r(2) have "\<exists>v. map_of (breakdown r) ''Tempo'' = Some v \<and> 0 \<le> v \<and> v \<le> 100"
    by blast
  with r(1,3,4) h show ?thesis by blast
qed


subsection \<open>C7: finalize on an empty buffer\<close>

text \<open>
  C7: with an empty frame buffer \<open>finalize\<close> returns, whatever its three arguments
  (\<open>fps = 0\<close> included), the result with score 0.0, an empty breakdown and the note
  "No frames captured"; it raises nothing. A new scorer and a reset scorer have an empty
  buffer.
\<close>

theorem scorer_empty_buffer:
  "finalize [] target_down_s target_up_s fps =
     Inr \<lparr> score = 0, breakdown = [], notes = Some [''No frames captured''] \<rparr>
   \<and> finalize RepScorer_init target_down_s target_up_s fps =
     Inr \<lparr> score = 0, breakdown = [], notes = Some [''No frames captured''] \<rparr>
   \<and> finalize (RepScorer_reset frames) target_down_s target_up_s fps =
     Inr \<lparr> score = 0, breakdown = [], notes = Some [''No frames captured''] \<rparr>"
  by (simp add: finalize_empty RepScorer_init_def RepScorer_reset_def)


end
